theory Spec2Isabelle
  imports Complex_Main
begin

section \<open>Data model\<close>

text \<open>
  The profiler receives a pandas DataFrame and reads each column as a Series: a storage
  type (dtype) together with a sequence of cells, any of which may be the null marker
  (\<open>None\<close> here, standing for NaN, NaT, None and NA alike). Each storage type the
  classifier distinguishes gets a constructor of its own, so that a column can only hold
  what its dtype can store:
  \<^item> \<open>NumSeries\<close>: int64 and float64 storage. Numbers are idealised as reals: no
    rounding, no overflow, no infinities.
  \<^item> \<open>BoolSeries\<close>: bool storage.
  \<^item> \<open>DatetimeSeries\<close>: datetime64[ns] storage, absolute timestamps in nanoseconds.
  \<^item> \<open>TimedeltaSeries\<close>: timedelta64[ns] storage, durations in nanoseconds.
  \<^item> \<open>ObjectSeries\<close>: object storage, holding arbitrary scalars (text, mixed types).
\<close>

datatype scalar = Num real | Bool bool | Stamp int | Delta int | Str string

datatype series =
    NumSeries "real option list"
  | BoolSeries "bool option list"
  | DatetimeSeries "int option list"
  | TimedeltaSeries "int option list"
  | ObjectSeries "scalar option list"

text \<open>The cells of a column as scalars, whatever the storage type.\<close>

fun cells :: "series \<Rightarrow> scalar option list" where
  "cells (NumSeries xs) = map (map_option Num) xs"
| "cells (BoolSeries xs) = map (map_option Bool) xs"
| "cells (DatetimeSeries xs) = map (map_option Stamp) xs"
| "cells (TimedeltaSeries xs) = map (map_option Delta) xs"
| "cells (ObjectSeries xs) = xs"

text \<open>
  A value stored in a summary record (a Python \<open>Dict[str, Any]\<close>): the absence value
  \<open>None\<close>, a string, an integer (counts and lengths), a float, the float NaN, a
  timestamp, a duration, or a dictionary from strings to counts. A summary record is an
  association list in insertion order, as a Python dictionary is.
\<close>

datatype pyval =
    PNone
  | PStr string
  | PInt int
  | PNum real
  | PNaN
  | PStamp int
  | PDelta real
  | PDict "(string \<times> int) list"

type_synonym summary = "(string \<times> pyval) list"

section \<open>The pandas primitives the profiler composes\<close>

text \<open>\<open>len(series)\<close>, \<open>series.empty\<close>, \<open>series.isna()\<close>, \<open>.all()\<close> and \<open>.sum()\<close> of a boolean mask.\<close>

definition len :: "series \<Rightarrow> nat" where
  "len s = length (cells s)"

definition series_empty :: "series \<Rightarrow> bool" where
  "series_empty s = (len s = 0)"

definition isna :: "'a option list \<Rightarrow> bool list" where
  "isna xs = map (\<lambda>c. c = None) xs"

definition mask_all :: "bool list \<Rightarrow> bool" where
  "mask_all bs = list_all id bs"

definition mask_sum :: "bool list \<Rightarrow> int" where
  "mask_sum bs = int (length (filter id bs))"

text \<open>\<open>series.dropna()\<close>: the non-null values, in column order.\<close>

fun dropna :: "'a option list \<Rightarrow> 'a list" where
  "dropna [] = []"
| "dropna (None # xs) = dropna xs"
| "dropna (Some x # xs) = x # dropna xs"

text \<open>\<open>.unique()\<close>: the distinct values in order of first appearance; \<open>.nunique()\<close>: their number.\<close>

fun unique_acc :: "'a list \<Rightarrow> 'a list \<Rightarrow> 'a list" where
  "unique_acc seen [] = rev seen"
| "unique_acc seen (x # xs) = (if x \<in> set seen then unique_acc seen xs else unique_acc (x # seen) xs)"

definition unique :: "'a list \<Rightarrow> 'a list" where
  "unique xs = unique_acc [] xs"

definition nunique :: "'a list \<Rightarrow> int" where
  "nunique xs = int (length (unique xs))"

text \<open>
  The dtype tests of \<open>pandas.api.types\<close>. \<open>is_numeric_dtype\<close> accepts every integer and
  float dtype and the bool dtype as well; datetime64 and timedelta64 are not numeric.
  \<open>is_datetime64_dtype\<close> accepts datetime64 only: a timedelta64 column is not one.
\<close>

fun is_numeric_dtype :: "series \<Rightarrow> bool" where
  "is_numeric_dtype (NumSeries _) = True"
| "is_numeric_dtype (BoolSeries _) = True"
| "is_numeric_dtype _ = False"

fun is_bool_dtype :: "series \<Rightarrow> bool" where
  "is_bool_dtype (BoolSeries _) = True"
| "is_bool_dtype _ = False"

fun is_datetime64_dtype :: "series \<Rightarrow> bool" where
  "is_datetime64_dtype (DatetimeSeries _) = True"
| "is_datetime64_dtype _ = False"

text \<open>
  Python's \<open>==\<close> between a scalar and a number: \<open>True == 1\<close> and \<open>False == 0\<close>, and no
  timestamp, duration or string equals a number. \<open>in_zero_one v\<close> is membership of \<open>v\<close>
  in the Python set \<open>{0, 1, True, False}\<close>.
\<close>

fun py_eq_num :: "scalar \<Rightarrow> real \<Rightarrow> bool" where
  "py_eq_num (Num x) y = (x = y)"
| "py_eq_num (Bool b) y = (of_bool b = y)"
| "py_eq_num _ y = False"

definition in_zero_one :: "scalar \<Rightarrow> bool" where
  "in_zero_one v = (py_eq_num v 0 \<or> py_eq_num v 1)"

section \<open>Classification\<close>

text \<open>
  \<open>_determine_type\<close>. The result is the string the source returns.
\<close>

definition determine_type :: "series \<Rightarrow> string" where
  "determine_type series =
    (if series_empty series \<or> mask_all (isna (cells series)) then ''string''
     else if is_numeric_dtype series then
       (let unique_vals = set (unique (dropna (cells series)))
        in if \<forall>v \<in> unique_vals. in_zero_one v then ''boolean'' else ''numeric'')
     else if is_bool_dtype series then ''boolean''
     else if is_datetime64_dtype series then ''datetime''
     else ''string'')"

section \<open>Aggregates\<close>

text \<open>
  \<open>min\<close>, \<open>max\<close>, \<open>sum\<close> and \<open>mean\<close> of the non-null values. The source calls them on a
  non-empty selection only (\<open>if not non_null.empty\<close>).
\<close>

definition pd_min :: "'a::linorder list \<Rightarrow> 'a" where
  "pd_min xs = Min (set xs)"

definition pd_max :: "'a::linorder list \<Rightarrow> 'a" where
  "pd_max xs = Max (set xs)"

definition pd_sum :: "real list \<Rightarrow> real" where
  "pd_sum xs = sum_list xs"

definition pd_mean :: "real list \<Rightarrow> real" where
  "pd_mean xs = sum_list xs / real (length xs)"

text \<open>
  \<open>median\<close>: the middle order statistic, or the average of the two middle ones.
  \<open>quantile(q)\<close> with the default linear interpolation: position \<open>(n - 1) * q\<close> in the
  sorted values, interpolating between the two neighbouring order statistics.
\<close>

definition pd_median :: "real list \<Rightarrow> real" where
  "pd_median xs =
    (let v = sort xs; n = length v
     in if odd n then v ! (n div 2) else (v ! (n div 2 - 1) + v ! (n div 2)) / 2)"

definition pd_quantile :: "real list \<Rightarrow> real \<Rightarrow> real" where
  "pd_quantile xs q =
    (let v = sort xs;
         h = real (length v - 1) * q;
         i = nat \<lfloor>h\<rfloor>;
         frac = h - real i
     in if i + 1 < length v then v ! i + (v ! (i + 1) - v ! i) * frac else v ! i)"

text \<open>
  \<open>var\<close> and \<open>std\<close> with the default \<open>ddof = 1\<close>: the sum of squared deviations over
  \<open>n - 1\<close>. With a single value the denominator is zero and pandas returns NaN.
\<close>

definition pd_var :: "real list \<Rightarrow> pyval" where
  "pd_var xs =
    (if length xs \<le> 1 then PNaN
     else PNum (sum_list (map (\<lambda>x. (x - pd_mean xs)\<^sup>2) xs) / real (length xs - 1)))"

definition pd_std :: "real list \<Rightarrow> pyval" where
  "pd_std xs = (case pd_var xs of PNum v \<Rightarrow> PNum (sqrt v) | r \<Rightarrow> r)"

text \<open>
  \<open>value_counts()\<close>: the distinct values with their numbers of occurrences, most
  frequent first. The values are counted in order of first appearance and the sort by
  count is stable, so equally frequent values stay in that order.
\<close>

definition value_counts :: "'a list \<Rightarrow> ('a \<times> int) list" where
  "value_counts xs =
    sort_key (\<lambda>(v, c). - c) (map (\<lambda>v. (v, int (count_list xs v))) (unique xs))"

text \<open>
  \<open>astype(str)\<close>: a string stays as it is; how any other scalar prints is left open
  (the parameter \<open>str_of\<close>). \<open>.str.len()\<close>: the lengths of the strings of a column.
\<close>

datatype error = Unsupported | KeyError | LengthError

definition astype_str :: "(scalar \<Rightarrow> string) \<Rightarrow> scalar \<Rightarrow> string" where
  "astype_str str_of v = (case v of Str s \<Rightarrow> s | _ \<Rightarrow> str_of v)"

definition str_len :: "string list \<Rightarrow> error + nat list" where
  "str_len xs = Inr (map length xs)"

section \<open>Summarizers\<close>

text \<open>
  Each summarizer returns the dictionary the source builds, key by key. A summarizer
  applied to a storage type whose reductions lie outside this model (the engine never
  does so) returns \<open>Inl Unsupported\<close>.
\<close>

fun analyze_numeric :: "series \<Rightarrow> error + summary" where
  "analyze_numeric (NumSeries xs) =
    (let total_count = length xs;
         null_count = mask_sum (isna xs);
         non_null = dropna xs;
         unique_count = nunique non_null;
         duplicate_count = int (length non_null) - unique_count
     in Inr
       [(''type'', PStr ''numeric''),
        (''count'', PInt (int (length non_null))),
        (''null_count'', PInt null_count),
        (''null_percentage'',
           if total_count > 0 then PNum (real_of_int null_count / real total_count * 100) else PInt 0),
        (''unique_count'', PInt unique_count),
        (''duplicate_count'', PInt duplicate_count),
        (''min'', if non_null \<noteq> [] then PNum (pd_min non_null) else PNone),
        (''max'', if non_null \<noteq> [] then PNum (pd_max non_null) else PNone),
        (''mean'', if non_null \<noteq> [] then PNum (pd_mean non_null) else PNone),
        (''median'', if non_null \<noteq> [] then PNum (pd_median non_null) else PNone),
        (''std'', if non_null \<noteq> [] then pd_std non_null else PNone),
        (''variance'', if non_null \<noteq> [] then pd_var non_null else PNone),
        (''q1'', if non_null \<noteq> [] then PNum (pd_quantile non_null 0.25) else PNone),
        (''q3'', if non_null \<noteq> [] then PNum (pd_quantile non_null 0.75) else PNone),
        (''iqr'',
           if non_null \<noteq> [] then PNum (pd_quantile non_null 0.75 - pd_quantile non_null 0.25)
           else PNone),
        (''sum'', if non_null \<noteq> [] then PNum (pd_sum non_null) else PNone),
        (''range'',
           if non_null \<noteq> [] \<and> length non_null > 1 then PNum (pd_max non_null - pd_min non_null)
           else PNone)])"
| "analyze_numeric _ = Inl Unsupported"

text \<open>
  \<open>_analyze_boolean\<close>. Every column it receives has a numeric dtype, so the values are
  always converted with \<open>astype(bool)\<close>: a number is true when it is not zero, a boolean
  is itself. \<open>boolean_record\<close> is the body of the source function from \<open>true_count\<close> on.
\<close>

definition boolean_record :: "nat \<Rightarrow> int \<Rightarrow> bool list \<Rightarrow> summary" where
  "boolean_record total_count null_count non_null =
    (let true_count = mask_sum non_null;
         false_count = int (length non_null) - true_count;
         unique_count = nunique non_null;
         duplicate_count = int (length non_null) - unique_count
     in [(''type'', PStr ''boolean''),
         (''count'', PInt (int (length non_null))),
         (''null_count'', PInt null_count),
         (''null_percentage'',
            if total_count > 0 then PNum (real_of_int null_count / real total_count * 100) else PInt 0),
         (''unique_count'', PInt unique_count),
         (''duplicate_count'', PInt duplicate_count),
         (''true_count'', PInt true_count),
         (''false_count'', PInt false_count),
         (''true_percentage'',
            if length non_null > 0 then PNum (real_of_int true_count / real (length non_null) * 100)
            else PInt 0),
         (''false_percentage'',
            if length non_null > 0 then PNum (real_of_int false_count / real (length non_null) * 100)
            else PInt 0)])"

fun analyze_boolean :: "series \<Rightarrow> error + summary" where
  "analyze_boolean (NumSeries xs) =
     Inr (boolean_record (length xs) (mask_sum (isna xs)) (map (\<lambda>x. x \<noteq> 0) (dropna xs)))"
| "analyze_boolean (BoolSeries xs) =
     Inr (boolean_record (length xs) (mask_sum (isna xs)) (dropna xs))"
| "analyze_boolean _ = Inl Unsupported"

text \<open>
  \<open>_analyze_string\<close>. The \<open>try\<close> block around the length computation is the \<open>case\<close> on
  the result of \<open>lens\<close>: an error there is caught and the three length fields become
  \<open>None\<close>. \<open>analyze_string\<close> is the source function, with pandas' \<open>.str.len()\<close>.
\<close>

definition analyze_string_with ::
  "(string list \<Rightarrow> error + nat list) \<Rightarrow> (scalar \<Rightarrow> string) \<Rightarrow> series \<Rightarrow> error + summary" where
  "analyze_string_with lens str_of series =
    (let total_count = len series;
         null_count = mask_sum (isna (cells series));
         non_null = map (astype_str str_of) (dropna (cells series));
         empty_count = mask_sum (map (\<lambda>s. s = []) non_null);
         (min_length, max_length, mean_length) =
           (if non_null \<noteq> [] then
              (case lens non_null of
                 Inr lengths \<Rightarrow>
                   (PInt (int (pd_min lengths)), PInt (int (pd_max lengths)),
                    PNum (pd_mean (map real lengths)))
               | Inl _ \<Rightarrow> (PNone, PNone, PNone))
            else (PNone, PNone, PNone));
         unique_count = nunique non_null;
         duplicate_count = int (length non_null) - unique_count;
         top_values = (if non_null \<noteq> [] then take 5 (value_counts non_null) else [])
     in Inr
       [(''type'', PStr ''string''),
        (''count'', PInt (int (length non_null))),
        (''null_count'', PInt null_count),
        (''null_percentage'',
           if total_count > 0 then PNum (real_of_int null_count / real total_count * 100) else PInt 0),
        (''empty_count'', PInt empty_count),
        (''unique_count'', PInt unique_count),
        (''duplicate_count'', PInt duplicate_count),
        (''min_length'', min_length),
        (''max_length'', max_length),
        (''mean_length'', mean_length),
        (''top_frequencies'', PDict top_values)])"

definition analyze_string :: "(scalar \<Rightarrow> string) \<Rightarrow> series \<Rightarrow> error + summary" where
  "analyze_string = analyze_string_with str_len"

text \<open>
  \<open>_analyze_datetime\<close>. \<open>datetime_record\<close> is the body of the source function over the
  nanosecond values; \<open>is_timedelta\<close> is the test \<open>isinstance(non_null.iloc[0], pd.Timedelta)\<close>,
  which holds exactly for timedelta64 storage. The minimum and maximum of a datetime64
  column are timestamps, those of a timedelta64 column are durations; a difference and a
  mean are durations.
\<close>

definition datetime_record :: "bool \<Rightarrow> int option list \<Rightarrow> summary" where
  "datetime_record is_timedelta xs =
    (let total_count = length xs;
         null_count = mask_sum (isna xs);
         non_null = dropna xs;
         point = (\<lambda>t. if is_timedelta then PDelta (real_of_int t) else PStamp t);
         unique_count = nunique non_null;
         duplicate_count = int (length non_null) - unique_count;
         results =
           [(''type'', PStr ''datetime''),
            (''count'', PInt (int (length non_null))),
            (''null_count'', PInt null_count),
            (''null_percentage'',
               if total_count > 0 then PNum (real_of_int null_count / real total_count * 100)
               else PInt 0),
            (''unique_count'', PInt unique_count),
            (''duplicate_count'', PInt duplicate_count),
            (''min'', if non_null \<noteq> [] then point (pd_min non_null) else PNone),
            (''max'', if non_null \<noteq> [] then point (pd_max non_null) else PNone),
            (''range'',
               if non_null \<noteq> [] \<and> length non_null > 1
               then PDelta (real_of_int (pd_max non_null - pd_min non_null)) else PNone)]
     in if non_null \<noteq> [] then
          (if is_timedelta then
             results @ [(''mean'', PDelta (pd_mean (map real_of_int non_null))),
                        (''median'', PDelta (pd_median (map real_of_int non_null)))]
           else results)
        else results)"

fun analyze_datetime :: "series \<Rightarrow> error + summary" where
  "analyze_datetime (DatetimeSeries xs) = Inr (datetime_record False xs)"
| "analyze_datetime (TimedeltaSeries xs) = Inr (datetime_record True xs)"
| "analyze_datetime _ = Inl Unsupported"

section \<open>The profiling engine\<close>

text \<open>
  A DataFrame is its columns in order, each under its label; the labels are distinct
  (the data model of the profile: a column's name is unique within the dataset), and
  \<open>df[column]\<close> is then the column stored under that label. The profiler object holds
  the DataFrame and the results dictionary, which \<open>_analyze\<close> fills column by column.
\<close>

type_synonym dataframe = "(string \<times> series) list"

type_synonym profile = "(string \<times> summary) list"

record jprofile =
  df :: dataframe
  results :: profile

definition columns :: "dataframe \<Rightarrow> string list" where
  "columns d = map fst d"

definition getitem :: "dataframe \<Rightarrow> string \<Rightarrow> error + series" where
  "getitem d column = (case map_of d column of None \<Rightarrow> Inl KeyError | Some s \<Rightarrow> Inr s)"

text \<open>\<open>d[k] = v\<close> on a Python dictionary: an existing key keeps its place, a new key goes last.\<close>

fun dict_set :: "('k \<times> 'v) list \<Rightarrow> 'k \<Rightarrow> 'v \<Rightarrow> ('k \<times> 'v) list" where
  "dict_set [] k v = [(k, v)]"
| "dict_set ((k', v') # d) k v = (if k' = k then (k, v) # d else (k', v') # dict_set d k v)"

text \<open>
  The body of the loop of \<open>_analyze\<close>: the chain of comparisons of the type tag, each
  calling its summarizer. The chain has no final \<open>else\<close>: for a tag other than the four
  it does nothing (\<open>None\<close>), and nothing is stored for the column.
\<close>

definition column_record :: "(scalar \<Rightarrow> string) \<Rightarrow> series \<Rightarrow> (error + summary) option" where
  "column_record str_of col_data =
    (let col_type = determine_type col_data
     in if col_type = ''numeric'' then Some (analyze_numeric col_data)
        else if col_type = ''boolean'' then Some (analyze_boolean col_data)
        else if col_type = ''string'' then Some (analyze_string str_of col_data)
        else if col_type = ''datetime'' then Some (analyze_datetime col_data)
        else None)"

text \<open>The loop of \<open>_analyze\<close> over \<open>df.columns\<close>; an error raised in the body ends it.\<close>

fun analyze_columns ::
  "(scalar \<Rightarrow> string) \<Rightarrow> dataframe \<Rightarrow> string list \<Rightarrow> profile \<Rightarrow> error + profile" where
  "analyze_columns str_of d [] res = Inr res"
| "analyze_columns str_of d (column # rest) res =
    (case getitem d column of
       Inl e \<Rightarrow> Inl e
     | Inr col_data \<Rightarrow>
        (case column_record str_of col_data of
           None \<Rightarrow> analyze_columns str_of d rest res
         | Some (Inl e) \<Rightarrow> Inl e
         | Some (Inr r) \<Rightarrow> analyze_columns str_of d rest (dict_set res column r)))"

definition analyze :: "(scalar \<Rightarrow> string) \<Rightarrow> jprofile \<Rightarrow> error + jprofile" where
  "analyze str_of self =
    (case analyze_columns str_of (df self) (columns (df self)) (results self) of
       Inl e \<Rightarrow> Inl e
     | Inr res \<Rightarrow> Inr (self\<lparr>results := res\<rparr>))"

text \<open>\<open>__init__\<close> and \<open>get_profile\<close>.\<close>

definition init :: "(scalar \<Rightarrow> string) \<Rightarrow> dataframe \<Rightarrow> error + jprofile" where
  "init str_of d = analyze str_of \<lparr>df = d, results = []\<rparr>"

definition get_profile :: "jprofile \<Rightarrow> profile" where
  "get_profile self = results self"

section \<open>The classification rule as the specification words it\<close>





section \<open>Notions used in the statements\<close>

text \<open>The fields every summary record shares, with their values.\<close>

definition has_counts :: "nat \<Rightarrow> int \<Rightarrow> int \<Rightarrow> int \<Rightarrow> summary \<Rightarrow> bool" where
  "has_counts N n c u r \<longleftrightarrow>
     map_of r ''null_count'' = Some (PInt n)
   \<and> map_of r ''count'' = Some (PInt c)
   \<and> map_of r ''null_percentage'' = Some (if N = 0 then PInt 0 else PNum (real_of_int n / real N * 100))
   \<and> map_of r ''unique_count'' = Some (PInt u)
   \<and> map_of r ''duplicate_count'' = Some (PInt (c - u))"



text \<open>The position at which a value first occurs in a list.\<close>

definition first_index :: "'a list \<Rightarrow> 'a \<Rightarrow> nat" where
  "first_index xs v = length (takeWhile (\<lambda>x. x \<noteq> v) xs)"

text \<open>One value ranks before another: it occurs more often, or as often and earlier.\<close>

definition ranks_before :: "'a list \<Rightarrow> 'a \<times> int \<Rightarrow> 'a \<times> int \<Rightarrow> bool" where
  "ranks_before xs p q \<longleftrightarrow>
     snd q < snd p \<or> (snd p = snd q \<and> first_index xs (fst p) < first_index xs (fst q))"

declare analyze_numeric.simps [simp del]
declare analyze_boolean.simps [simp del]
declare analyze_datetime.simps [simp del]

section \<open>Facts about the primitives\<close>

lemma dropna_map_option: "dropna (map (map_option f) xs) = map f (dropna xs)"
  by (induction xs rule: dropna.induct) auto

lemma set_unique_acc: "set (unique_acc seen xs) = set seen \<union> set xs"
  by (induction xs arbitrary: seen) auto

lemma set_unique [simp]: "set (unique xs) = set xs"
  by (simp add: unique_def set_unique_acc)

lemma distinct_unique_acc: "distinct seen \<Longrightarrow> distinct (unique_acc seen xs)"
  by (induction xs arbitrary: seen) auto

lemma distinct_unique [simp]: "distinct (unique xs)"
  by (simp add: unique_def distinct_unique_acc)

lemma length_unique_le: "length (unique xs) \<le> length xs"
proof -
  have "length (unique xs) = card (set xs)"
    using distinct_card [of "unique xs"] by simp
  then show ?thesis by (simp add: card_length)
qed

lemma nunique_bounds: "0 \<le> nunique xs \<and> nunique xs \<le> int (length xs)"
  by (simp add: nunique_def length_unique_le)

lemma mask_sum_isna: "mask_sum (isna xs) = int (length (filter (\<lambda>c. c = None) xs))"
  by (simp add: mask_sum_def isna_def filter_map comp_def)

lemma length_dropna: "length (dropna xs) = length (filter (\<lambda>c. c \<noteq> None) xs)"
  by (induction xs rule: dropna.induct) auto

lemma set_dropna: "set (dropna xs) = {x. Some x \<in> set xs}"
  by (induction xs rule: dropna.induct) auto

lemma nulls_map_option:
  "length (filter (\<lambda>c. c = None) (map (map_option f) xs)) = length (filter (\<lambda>c. c = None) xs)"
  by (induction xs) auto

lemma non_nulls_map_option:
  "length (filter (\<lambda>c. c \<noteq> None) (map (map_option f) xs)) = length (filter (\<lambda>c. c \<noteq> None) xs)"
  by (induction xs) auto

lemma mask_all_isna: "mask_all (isna xs) = (\<forall>c \<in> set xs. c = None)"
  by (simp add: mask_all_def isna_def list_all_iff)

section \<open>Classification\<close>



section \<open>The fields shared by all kinds\<close>

lemma numeric_has_counts:
  "analyze_numeric (NumSeries xs) = Inr r \<Longrightarrow>
   has_counts (length xs) (mask_sum (isna xs)) (int (length (dropna xs))) (nunique (dropna xs)) r"
  by (auto simp: has_counts_def Let_def analyze_numeric.simps)

lemma boolean_record_has_counts:
  "has_counts N n (int (length bs)) (nunique bs) (boolean_record N n bs)"
  by (auto simp: has_counts_def boolean_record_def Let_def)

lemma datetime_record_has_counts:
  "has_counts (length xs) (mask_sum (isna xs)) (int (length (dropna xs))) (nunique (dropna xs))
     (datetime_record b xs)"
  by (auto simp: has_counts_def datetime_record_def Let_def)

lemma string_has_counts:
  "analyze_string_with lens str_of s = Inr r \<Longrightarrow>
   has_counts (len s) (mask_sum (isna (cells s))) (int (length (dropna (cells s))))
     (nunique (map (astype_str str_of) (dropna (cells s)))) r"
  by (auto simp: has_counts_def analyze_string_with_def Let_def split: prod.splits)

lemma analyze_string_returns: "\<exists>r. analyze_string_with lens str_of s = Inr r"
  by (simp add: analyze_string_with_def Let_def split: prod.splits)

lemma column_record_cases:
  "(determine_type s = ''string'' \<and> column_record str_of s = Some (analyze_string str_of s))
   \<or> (determine_type s = ''numeric'' \<and> (\<exists>xs. s = NumSeries xs)
        \<and> column_record str_of s = Some (analyze_numeric s))
   \<or> (determine_type s = ''boolean'' \<and> ((\<exists>xs. s = NumSeries xs) \<or> (\<exists>xs. s = BoolSeries xs))
        \<and> column_record str_of s = Some (analyze_boolean s))
   \<or> (determine_type s = ''datetime'' \<and> (\<exists>xs. s = DatetimeSeries xs)
        \<and> column_record str_of s = Some (analyze_datetime s))"
  by (cases s) (auto simp: column_record_def determine_type_def Let_def dropna_map_option in_zero_one_def)

lemma has_counts_cells:
  assumes "has_counts (length (cells s)) (int (length (filter (\<lambda>c. c = None) (cells s))))
             (int (length (filter (\<lambda>c. c \<noteq> None) (cells s)))) u r"
    and "0 \<le> u" and "u \<le> int (length (filter (\<lambda>c. c \<noteq> None) (cells s)))"
  shows "\<exists>u d. map_of r ''null_count'' = Some (PInt (int (length (filter (\<lambda>c. c = None) (cells s)))))
     \<and> map_of r ''count'' = Some (PInt (int (length (filter (\<lambda>c. c \<noteq> None) (cells s)))))
     \<and> map_of r ''null_percentage'' =
         Some (if length (cells s) = 0 then PInt 0
               else PNum (real (length (filter (\<lambda>c. c = None) (cells s))) / real (length (cells s)) * 100))
     \<and> map_of r ''unique_count'' = Some (PInt u)
     \<and> map_of r ''duplicate_count'' = Some (PInt d)
     \<and> 0 \<le> u \<and> 0 \<le> d \<and> u + d = int (length (filter (\<lambda>c. c \<noteq> None) (cells s)))"
  using assms unfolding has_counts_def
  by (intro exI [of _ u] exI [of _ "int (length (filter (\<lambda>c. c \<noteq> None) (cells s))) - u"]) simp

lemma has_counts_transfer:
  assumes "has_counts N n c u r"
    and "N = length (cells s)"
    and "n = int (length (filter (\<lambda>c. c = None) (cells s)))"
    and "c = int (length (filter (\<lambda>c. c \<noteq> None) (cells s)))"
    and "0 \<le> u \<and> u \<le> c"
    and "column_record str_of s = Some (Inr r)"
  shows "\<exists>r u. column_record str_of s = Some (Inr r)
     \<and> has_counts (length (cells s)) (int (length (filter (\<lambda>c. c = None) (cells s))))
             (int (length (filter (\<lambda>c. c \<noteq> None) (cells s)))) u r
     \<and> 0 \<le> u \<and> u \<le> int (length (filter (\<lambda>c. c \<noteq> None) (cells s)))"
  using assms by blast

lemma column_record_has_counts:
  "\<exists>r u. column_record str_of s = Some (Inr r)
     \<and> has_counts (length (cells s)) (int (length (filter (\<lambda>c. c = None) (cells s))))
             (int (length (filter (\<lambda>c. c \<noteq> None) (cells s)))) u r
     \<and> 0 \<le> u \<and> u \<le> int (length (filter (\<lambda>c. c \<noteq> None) (cells s)))"
proof -
  consider (str) "column_record str_of s = Some (analyze_string str_of s)"
    | (num) xs where "s = NumSeries xs" "column_record str_of s = Some (analyze_numeric s)"
    | (boolnum) xs where "s = NumSeries xs" "column_record str_of s = Some (analyze_boolean s)"
    | (boolbool) xs where "s = BoolSeries xs" "column_record str_of s = Some (analyze_boolean s)"
    | (dt) xs where "s = DatetimeSeries xs" "column_record str_of s = Some (analyze_datetime s)"
    using column_record_cases [of s str_of] by blast
  then show ?thesis
  proof cases
    case str
    obtain r where r: "analyze_string_with str_len str_of s = Inr r"
      using analyze_string_returns by blast
    show ?thesis
    proof (rule has_counts_transfer [OF string_has_counts [OF r]])
      show "len s = length (cells s)" by (simp only: len_def)
      show "mask_sum (isna (cells s)) = int (length (filter (\<lambda>c. c = None) (cells s)))"
        by (simp only: mask_sum_isna)
      show "int (length (dropna (cells s))) = int (length (filter (\<lambda>c. c \<noteq> None) (cells s)))"
        by (simp only: length_dropna)
      show "0 \<le> nunique (map (astype_str str_of) (dropna (cells s)))
          \<and> nunique (map (astype_str str_of) (dropna (cells s))) \<le> int (length (dropna (cells s)))"
        using nunique_bounds [of "map (astype_str str_of) (dropna (cells s))"] by simp
      show "column_record str_of s = Some (Inr r)"
        using str r by (simp only: analyze_string_def)
    qed
  next
    case num
    obtain r where r: "analyze_numeric (NumSeries xs) = Inr r"
      by (simp add: analyze_numeric.simps Let_def)
    show ?thesis
    proof (rule has_counts_transfer [OF numeric_has_counts [OF r]])
      show "length xs = length (cells s)" by (simp add: num(1))
      show "mask_sum (isna xs) = int (length (filter (\<lambda>c. c = None) (cells s)))"
        by (simp only: num(1) cells.simps nulls_map_option mask_sum_isna)
      show "int (length (dropna xs)) = int (length (filter (\<lambda>c. c \<noteq> None) (cells s)))"
        by (simp only: num(1) cells.simps non_nulls_map_option length_dropna)
      show "0 \<le> nunique (dropna xs) \<and> nunique (dropna xs) \<le> int (length (dropna xs))"
        by (rule nunique_bounds)
      show "column_record str_of s = Some (Inr r)"
        using num r by simp
    qed
  next
    case boolnum
    show ?thesis
    proof (rule has_counts_transfer [OF boolean_record_has_counts])
      show "length xs = length (cells s)" by (simp add: boolnum(1))
      show "mask_sum (isna xs) = int (length (filter (\<lambda>c. c = None) (cells s)))"
        by (simp only: boolnum(1) cells.simps nulls_map_option mask_sum_isna)
      show "int (length (map (\<lambda>x. x \<noteq> 0) (dropna xs))) = int (length (filter (\<lambda>c. c \<noteq> None) (cells s)))"
        by (simp only: boolnum(1) cells.simps non_nulls_map_option length_dropna length_map)
      show "0 \<le> nunique (map (\<lambda>x. x \<noteq> 0) (dropna xs))
          \<and> nunique (map (\<lambda>x. x \<noteq> 0) (dropna xs)) \<le> int (length (map (\<lambda>x. x \<noteq> 0) (dropna xs)))"
        by (rule nunique_bounds)
      show "column_record str_of s = Some (Inr (boolean_record (length xs) (mask_sum (isna xs))
              (map (\<lambda>x. x \<noteq> 0) (dropna xs))))"
        using boolnum by (simp add: analyze_boolean.simps)
    qed
  next
    case boolbool
    show ?thesis
    proof (rule has_counts_transfer [OF boolean_record_has_counts])
      show "length xs = length (cells s)" by (simp add: boolbool(1))
      show "mask_sum (isna xs) = int (length (filter (\<lambda>c. c = None) (cells s)))"
        by (simp only: boolbool(1) cells.simps nulls_map_option mask_sum_isna)
      show "int (length (dropna xs)) = int (length (filter (\<lambda>c. c \<noteq> None) (cells s)))"
        by (simp only: boolbool(1) cells.simps non_nulls_map_option length_dropna)
      show "0 \<le> nunique (dropna xs) \<and> nunique (dropna xs) \<le> int (length (dropna xs))"
        by (rule nunique_bounds)
      show "column_record str_of s = Some (Inr (boolean_record (length xs) (mask_sum (isna xs)) (dropna xs)))"
        using boolbool by (simp add: analyze_boolean.simps)
    qed
  next
    case dt
    show ?thesis
    proof (rule has_counts_transfer [OF datetime_record_has_counts])
      show "length xs = length (cells s)" by (simp add: dt(1))
      show "mask_sum (isna xs) = int (length (filter (\<lambda>c. c = None) (cells s)))"
        by (simp only: dt(1) cells.simps nulls_map_option mask_sum_isna)
      show "int (length (dropna xs)) = int (length (filter (\<lambda>c. c \<noteq> None) (cells s)))"
        by (simp only: dt(1) cells.simps non_nulls_map_option length_dropna)
      show "0 \<le> nunique (dropna xs) \<and> nunique (dropna xs) \<le> int (length (dropna xs))"
        by (rule nunique_bounds)
      show "column_record str_of s = Some (Inr (datetime_record False xs))"
        using dt by (simp add: analyze_datetime.simps)
    qed
  qed
qed

text \<open>
  Claim C2. Whatever the column and its kind, the engine produces a record in which
  \<open>null_count\<close> and \<open>count\<close> are the numbers of null and of non-null cells and add up to
  the length of the column, \<open>null_percentage\<close> is \<open>null_count / total_count * 100\<close> (and 0
  for a column of length 0), and \<open>unique_count + duplicate_count\<close> is the number of
  non-null cells.
\<close>

theorem column_record_counts:
  "\<exists>r u d. column_record str_of s = Some (Inr r)
     \<and> map_of r ''null_count'' = Some (PInt (int (length (filter (\<lambda>c. c = None) (cells s)))))
     \<and> map_of r ''count'' = Some (PInt (int (length (filter (\<lambda>c. c \<noteq> None) (cells s)))))
     \<and> length (filter (\<lambda>c. c = None) (cells s)) + length (filter (\<lambda>c. c \<noteq> None) (cells s))
         = length (cells s)
     \<and> map_of r ''null_percentage'' =
         Some (if length (cells s) = 0 then PInt 0
               else PNum (real (length (filter (\<lambda>c. c = None) (cells s))) / real (length (cells s)) * 100))
     \<and> map_of r ''unique_count'' = Some (PInt u)
     \<and> map_of r ''duplicate_count'' = Some (PInt d)
     \<and> 0 \<le> u \<and> 0 \<le> d \<and> u + d = int (length (filter (\<lambda>c. c \<noteq> None) (cells s)))"
proof -
  obtain r u where r: "column_record str_of s = Some (Inr r)"
    and hc: "has_counts (length (cells s)) (int (length (filter (\<lambda>c. c = None) (cells s))))
             (int (length (filter (\<lambda>c. c \<noteq> None) (cells s)))) u r"
    and u: "0 \<le> u" "u \<le> int (length (filter (\<lambda>c. c \<noteq> None) (cells s)))"
    using column_record_has_counts by blast
  have "length (filter (\<lambda>c. c = None) (cells s)) + length (filter (\<lambda>c. c \<noteq> None) (cells s))
         = length (cells s)"
    using sum_length_filter_compl [of "\<lambda>c. c = None" "cells s"] by simp
  with has_counts_cells [OF hc u] r show ?thesis by blast
qed

theorem column_record_counts_witness:
  "\<exists>r u d. column_record (\<lambda>v. ''x'') (NumSeries [Some 1, Some 2, Some 3, Some 4, Some 5, None, Some 7, Some 8, Some 8, Some 10])
        = Some (Inr r)
     \<and> map_of r ''null_count'' = Some (PInt 1)
     \<and> map_of r ''count'' = Some (PInt 9)
     \<and> map_of r ''null_percentage'' = Some (PNum 10)
     \<and> map_of r ''unique_count'' = Some (PInt u)
     \<and> map_of r ''duplicate_count'' = Some (PInt d)
     \<and> 0 \<le> u \<and> 0 \<le> d \<and> u + d = 9"
  using column_record_counts [of "\<lambda>v. ''x''" "NumSeries [Some 1, Some 2, Some 3, Some 4, Some 5, None, Some 7, Some 8, Some 8, Some 10]"]
  by simp

section \<open>The Boolean summarizer\<close>


lemma mask_sum_bounds: "0 \<le> mask_sum bs \<and> mask_sum bs \<le> int (length bs)"
  by (simp add: mask_sum_def)













section \<open>The Numeric summarizer\<close>

lemma analyze_numeric_fields:
  "\<exists>r. analyze_numeric (NumSeries xs) = Inr r
     \<and> map_of r ''type'' = Some (PStr ''numeric'')
     \<and> map_of r ''min'' = Some (if dropna xs \<noteq> [] then PNum (pd_min (dropna xs)) else PNone)
     \<and> map_of r ''max'' = Some (if dropna xs \<noteq> [] then PNum (pd_max (dropna xs)) else PNone)
     \<and> map_of r ''median'' = Some (if dropna xs \<noteq> [] then PNum (pd_median (dropna xs)) else PNone)
     \<and> map_of r ''std'' = Some (if dropna xs \<noteq> [] then pd_std (dropna xs) else PNone)
     \<and> map_of r ''variance'' = Some (if dropna xs \<noteq> [] then pd_var (dropna xs) else PNone)
     \<and> map_of r ''q1'' = Some (if dropna xs \<noteq> [] then PNum (pd_quantile (dropna xs) 0.25) else PNone)
     \<and> map_of r ''q3'' = Some (if dropna xs \<noteq> [] then PNum (pd_quantile (dropna xs) 0.75) else PNone)
     \<and> map_of r ''iqr'' =
          Some (if dropna xs \<noteq> [] then PNum (pd_quantile (dropna xs) 0.75 - pd_quantile (dropna xs) 0.25)
                else PNone)
     \<and> map_of r ''range'' =
          Some (if dropna xs \<noteq> [] \<and> length (dropna xs) > 1
                then PNum (pd_max (dropna xs) - pd_min (dropna xs)) else PNone)"
  by (simp add: analyze_numeric.simps Let_def)

lemma numeric_kind_record:
  "determine_type (NumSeries xs) = ''numeric'' \<Longrightarrow>
   column_record str_of (NumSeries xs) = Some (analyze_numeric (NumSeries xs))"
  by (simp add: column_record_def)

lemma pd_var_single: "length xs = 1 \<Longrightarrow> pd_var xs = PNaN"
  by (simp add: pd_var_def)

lemma pd_std_single: "length xs = 1 \<Longrightarrow> pd_std xs = PNaN"
  by (simp add: pd_std_def pd_var_single)

text \<open>
  Claim C9. For a numeric-storage column classified Numeric that has exactly one non-null
  value, the record's \<open>range\<close> is the absence value, but \<open>std\<close> and \<open>variance\<close> are
  not: they are NaN, the result of the sample computation with the denominator
  \<open>n - 1 = 0\<close>. Only with no non-null value at all does the Numeric summarizer give the
  absence value for them.
\<close>

theorem single_value_std_is_nan:
  "(determine_type (NumSeries xs) = ''numeric'' \<and> length (dropna xs) = 1 \<longrightarrow>
      (\<exists>r. column_record str_of (NumSeries xs) = Some (Inr r)
         \<and> map_of r ''type'' = Some (PStr ''numeric'')
         \<and> map_of r ''range'' = Some PNone
         \<and> map_of r ''std'' = Some PNaN
         \<and> map_of r ''variance'' = Some PNaN))
   \<and> (dropna xs = [] \<longrightarrow>
      (\<exists>r. analyze_numeric (NumSeries xs) = Inr r
         \<and> map_of r ''range'' = Some PNone
         \<and> map_of r ''std'' = Some PNone
         \<and> map_of r ''variance'' = Some PNone))"
proof (intro conjI impI)
  assume a: "determine_type (NumSeries xs) = ''numeric'' \<and> length (dropna xs) = 1"
  then have ne: "dropna xs \<noteq> []" by auto
  obtain r where r: "analyze_numeric (NumSeries xs) = Inr r"
    and ty: "map_of r ''type'' = Some (PStr ''numeric'')"
    and sd: "map_of r ''std'' = Some (if dropna xs \<noteq> [] then pd_std (dropna xs) else PNone)"
    and va: "map_of r ''variance'' = Some (if dropna xs \<noteq> [] then pd_var (dropna xs) else PNone)"
    and ra: "map_of r ''range'' =
          Some (if dropna xs \<noteq> [] \<and> length (dropna xs) > 1
                then PNum (pd_max (dropna xs) - pd_min (dropna xs)) else PNone)"
    using analyze_numeric_fields [of xs] by (elim exE conjE)
  have "column_record str_of (NumSeries xs) = Some (Inr r)"
    using a r numeric_kind_record by simp
  moreover have "map_of r ''range'' = Some PNone" using ra a by simp
  moreover have "map_of r ''std'' = Some PNaN" using sd a ne by (simp add: pd_std_single)
  moreover have "map_of r ''variance'' = Some PNaN" using va a ne by (simp add: pd_var_single)
  ultimately show "\<exists>r. column_record str_of (NumSeries xs) = Some (Inr r)
         \<and> map_of r ''type'' = Some (PStr ''numeric'')
         \<and> map_of r ''range'' = Some PNone
         \<and> map_of r ''std'' = Some PNaN
         \<and> map_of r ''variance'' = Some PNaN"
    using ty by (intro exI [of _ r] conjI)
next
  assume e: "dropna xs = []"
  obtain r where r: "analyze_numeric (NumSeries xs) = Inr r"
    and sd: "map_of r ''std'' = Some (if dropna xs \<noteq> [] then pd_std (dropna xs) else PNone)"
    and va: "map_of r ''variance'' = Some (if dropna xs \<noteq> [] then pd_var (dropna xs) else PNone)"
    and ra: "map_of r ''range'' =
          Some (if dropna xs \<noteq> [] \<and> length (dropna xs) > 1
                then PNum (pd_max (dropna xs) - pd_min (dropna xs)) else PNone)"
    using analyze_numeric_fields [of xs] by (elim exE conjE)
  have "map_of r ''range'' = Some PNone" using ra e by simp
  moreover have "map_of r ''std'' = Some PNone" using sd e by simp
  moreover have "map_of r ''variance'' = Some PNone" using va e by simp
  ultimately show "\<exists>r. analyze_numeric (NumSeries xs) = Inr r
         \<and> map_of r ''range'' = Some PNone
         \<and> map_of r ''std'' = Some PNone
         \<and> map_of r ''variance'' = Some PNone"
    using r by (intro exI [of _ r] conjI)
qed

theorem single_value_std_is_nan_witness:
  "determine_type (NumSeries [Some 5, None]) = ''numeric'' \<and> length (dropna [Some (5::real), None]) = 1
   \<and> (\<exists>r. column_record (\<lambda>v. ''x'') (NumSeries [Some 5, None]) = Some (Inr r)
         \<and> map_of r ''type'' = Some (PStr ''numeric'')
         \<and> map_of r ''range'' = Some PNone
         \<and> map_of r ''std'' = Some PNaN
         \<and> map_of r ''variance'' = Some PNaN)"
proof -
  have k: "determine_type (NumSeries [Some 5, None]) = ''numeric'' \<and> length (dropna [Some (5::real), None]) = 1"
    by (simp add: determine_type_def series_empty_def len_def mask_all_isna in_zero_one_def)
  show ?thesis
    using k single_value_std_is_nan [of "[Some 5, None]" "\<lambda>v. ''x''", THEN conjunct1, THEN mp, OF k]
    by (intro conjI) (elim conjE, assumption)+
qed

section \<open>Duration columns and the String summarizer\<close>

lemma analyze_string_keys:
  "analyze_string_with lens str_of s = Inr r \<Longrightarrow>
   map fst r = [''type'', ''count'', ''null_count'', ''null_percentage'', ''empty_count'',
     ''unique_count'', ''duplicate_count'', ''min_length'', ''max_length'', ''mean_length'',
     ''top_frequencies'']
   \<and> map_of r ''type'' = Some (PStr ''string'')"
  by (auto simp: analyze_string_with_def Let_def split: prod.splits)

lemma string_record_no_mean:
  assumes "analyze_string_with lens str_of s = Inr r"
  shows "map_of r ''mean'' = None \<and> map_of r ''median'' = None"
proof -
  have "''mean'' \<notin> set (map fst r) \<and> ''median'' \<notin> set (map fst r)"
    using analyze_string_keys [OF assms] by simp
  then show ?thesis by (simp add: map_of_eq_None_iff)
qed

lemma datetime_record_timestamps:
  "map_of (datetime_record False xs) ''type'' = Some (PStr ''datetime'')
   \<and> map_of (datetime_record False xs) ''mean'' = None
   \<and> map_of (datetime_record False xs) ''median'' = None"
  by (simp add: datetime_record_def Let_def)

lemma datetime_record_durations:
  "dropna xs \<noteq> [] \<Longrightarrow>
   map_of (datetime_record True xs) ''type'' = Some (PStr ''datetime'')
   \<and> map_of (datetime_record True xs) ''mean'' = Some (PDelta (pd_mean (map real_of_int (dropna xs))))
   \<and> map_of (datetime_record True xs) ''median'' = Some (PDelta (pd_median (map real_of_int (dropna xs))))"
  by (simp add: datetime_record_def Let_def)

lemma determine_type_timedelta: "determine_type (TimedeltaSeries xs) = ''string''"
  by (simp add: determine_type_def)

lemma column_record_string:
  "determine_type s = ''string'' \<Longrightarrow> column_record str_of s = Some (analyze_string str_of s)"
  by (simp add: column_record_def)

text \<open>
  Claim C3. The claim is that a duration column with a non-null value gets a Datetime
  record with \<open>mean\<close> and \<open>median\<close>, and that a timestamp column gets neither field.
  The source does not do the first: timedelta64 storage passes none of the dtype tests of
  \<open>_determine_type\<close>, so a duration column is classified String, and its record is a
  String record without \<open>mean\<close> and \<open>median\<close>. The branch of \<open>_analyze_datetime\<close> that
  would add them (third conjunct) is never reached from \<open>_analyze\<close>. The second half of
  the claim holds (last conjunct).
\<close>

theorem timedelta_column_profiled_as_string:
  "determine_type (TimedeltaSeries xs) = ''string''
   \<and> (\<exists>r. column_record str_of (TimedeltaSeries xs) = Some (Inr r)
         \<and> map_of r ''type'' = Some (PStr ''string'')
         \<and> map_of r ''mean'' = None \<and> map_of r ''median'' = None)
   \<and> (dropna xs \<noteq> [] \<longrightarrow>
        (\<exists>r. analyze_datetime (TimedeltaSeries xs) = Inr r
           \<and> map_of r ''type'' = Some (PStr ''datetime'')
           \<and> map_of r ''mean'' = Some (PDelta (pd_mean (map real_of_int (dropna xs))))
           \<and> map_of r ''median'' = Some (PDelta (pd_median (map real_of_int (dropna xs))))))
   \<and> (\<exists>r. column_record str_of (DatetimeSeries xs) = Some (Inr r)
         \<and> map_of r ''mean'' = None \<and> map_of r ''median'' = None)"
proof (intro conjI impI)
  show "determine_type (TimedeltaSeries xs) = ''string''"
    by (rule determine_type_timedelta)
  obtain r where r: "analyze_string_with str_len str_of (TimedeltaSeries xs) = Inr r"
    using analyze_string_returns by blast
  have "column_record str_of (TimedeltaSeries xs) = Some (Inr r)"
    using column_record_string [OF determine_type_timedelta] r by (simp add: analyze_string_def)
  then show "\<exists>r. column_record str_of (TimedeltaSeries xs) = Some (Inr r)
         \<and> map_of r ''type'' = Some (PStr ''string'')
         \<and> map_of r ''mean'' = None \<and> map_of r ''median'' = None"
    using analyze_string_keys [OF r] string_record_no_mean [OF r] by blast
next
  assume "dropna xs \<noteq> []"
  then show "\<exists>r. analyze_datetime (TimedeltaSeries xs) = Inr r
           \<and> map_of r ''type'' = Some (PStr ''datetime'')
           \<and> map_of r ''mean'' = Some (PDelta (pd_mean (map real_of_int (dropna xs))))
           \<and> map_of r ''median'' = Some (PDelta (pd_median (map real_of_int (dropna xs))))"
    using datetime_record_durations [of xs] by (simp add: analyze_datetime.simps)
next
  let ?s = "DatetimeSeries xs"
  consider (str) "column_record str_of ?s = Some (analyze_string str_of ?s)"
    | (dt) "column_record str_of ?s = Some (analyze_datetime ?s)"
    using column_record_cases [of ?s str_of] by auto
  then show "\<exists>r. column_record str_of ?s = Some (Inr r)
         \<and> map_of r ''mean'' = None \<and> map_of r ''median'' = None"
  proof cases
    case str
    obtain r where r: "analyze_string_with str_len str_of ?s = Inr r"
      using analyze_string_returns by blast
    then show ?thesis
      using str string_record_no_mean [OF r] by (simp add: analyze_string_def)
  next
    case dt
    then show ?thesis
      using datetime_record_timestamps [of xs] by (simp add: analyze_datetime.simps)
  qed
qed

theorem timedelta_column_profiled_as_string_witness:
  "determine_type (TimedeltaSeries [Some 1, Some 3]) = ''string''
   \<and> (\<exists>r. column_record (\<lambda>v. ''d'') (TimedeltaSeries [Some 1, Some 3]) = Some (Inr r)
         \<and> map_of r ''type'' = Some (PStr ''string'')
         \<and> map_of r ''mean'' = None \<and> map_of r ''median'' = None)
   \<and> (\<exists>r. analyze_datetime (TimedeltaSeries [Some 1, Some 3]) = Inr r
         \<and> map_of r ''type'' = Some (PStr ''datetime'')
         \<and> map_of r ''mean'' = Some (PDelta 2)
         \<and> map_of r ''median'' = Some (PDelta 2))"
proof -
  have ne: "dropna [Some (1::int), Some 3] \<noteq> []" by simp
  have m: "pd_mean (map real_of_int (dropna [Some 1, Some 3])) = 2"
    by (simp add: pd_mean_def)
  have d: "pd_median (map real_of_int (dropna [Some 1, Some 3])) = 2"
    by (simp add: pd_median_def)
  note t = timedelta_column_profiled_as_string [of "[Some 1, Some 3]" "\<lambda>v. ''d''"]
  have a: "determine_type (TimedeltaSeries [Some 1, Some 3]) = ''string''"
    using t by (elim conjE)
  have b: "\<exists>r. column_record (\<lambda>v. ''d'') (TimedeltaSeries [Some 1, Some 3]) = Some (Inr r)
         \<and> map_of r ''type'' = Some (PStr ''string'')
         \<and> map_of r ''mean'' = None \<and> map_of r ''median'' = None"
    using t by (elim conjE)
  have c: "\<exists>r. analyze_datetime (TimedeltaSeries [Some 1, Some 3]) = Inr r
         \<and> map_of r ''type'' = Some (PStr ''datetime'')
         \<and> map_of r ''mean'' = Some (PDelta 2)
         \<and> map_of r ''median'' = Some (PDelta 2)"
    using t [THEN conjunct2, THEN conjunct2, THEN conjunct1, THEN mp, OF ne]
    unfolding m d .
  from a b c show ?thesis by (intro conjI)
qed

text \<open>
  Claim C6. The String summarizer always returns a record, whatever the length
  computation does: \<open>min_length\<close>, \<open>max_length\<close> and \<open>mean_length\<close> are the absence
  value when there is no non-null value or when the length computation fails, the failure
  being caught inside the summarizer. With a non-null value and pandas' own length
  computation they are the minimum, maximum and mean of the lengths.
\<close>

theorem analyze_string_lengths_absent:
  "\<exists>r. analyze_string_with lens str_of s = Inr r
     \<and> (dropna (cells s) = [] \<or> (\<exists>e. lens (map (astype_str str_of) (dropna (cells s))) = Inl e) \<longrightarrow>
          map_of r ''min_length'' = Some PNone
        \<and> map_of r ''max_length'' = Some PNone
        \<and> map_of r ''mean_length'' = Some PNone)
     \<and> (dropna (cells s) \<noteq> [] \<and> lens = str_len \<longrightarrow>
          map_of r ''min_length'' =
            Some (PInt (int (pd_min (map length (map (astype_str str_of) (dropna (cells s)))))))
        \<and> map_of r ''max_length'' =
            Some (PInt (int (pd_max (map length (map (astype_str str_of) (dropna (cells s)))))))
        \<and> map_of r ''mean_length'' =
            Some (PNum (pd_mean (map real (map length (map (astype_str str_of) (dropna (cells s))))))))"
  by (auto simp: analyze_string_with_def Let_def str_len_def split: prod.splits sum.splits)

theorem analyze_string_lengths_absent_witness:
  "(\<exists>r. analyze_string_with (\<lambda>xs. Inl LengthError) (\<lambda>v. ''x'') (ObjectSeries [Some (Str ''ab''), None]) = Inr r
     \<and> map_of r ''min_length'' = Some PNone
     \<and> map_of r ''max_length'' = Some PNone
     \<and> map_of r ''mean_length'' = Some PNone)"
proof -
  let ?lens = "\<lambda>xs :: string list. (Inl LengthError :: error + nat list)"
  let ?s = "ObjectSeries [Some (Str ''ab''), None]"
  have h: "dropna (cells ?s) = [] \<or> (\<exists>e. ?lens (map (astype_str (\<lambda>v. ''x'')) (dropna (cells ?s))) = Inl e)"
    by simp
  from analyze_string_lengths_absent [of ?lens "\<lambda>v. ''x''" ?s]
  obtain r where r: "analyze_string_with ?lens (\<lambda>v. ''x'') ?s = Inr r"
    and i: "dropna (cells ?s) = [] \<or> (\<exists>e. ?lens (map (astype_str (\<lambda>v. ''x'')) (dropna (cells ?s))) = Inl e) \<longrightarrow>
          map_of r ''min_length'' = Some PNone
        \<and> map_of r ''max_length'' = Some PNone
        \<and> map_of r ''mean_length'' = Some PNone"
    by (elim exE conjE)
  from i [THEN mp, OF h] r show ?thesis by (intro exI [of _ r] conjI) (elim conjE, assumption)+
qed

section \<open>The engine\<close>

lemma column_record_returns:
  "\<exists>r. column_record str_of s = Some (Inr r) \<and> map_of r ''type'' = Some (PStr (determine_type s))
      \<and> determine_type s \<in> {''numeric'', ''boolean'', ''string'', ''datetime''}"
proof -
  consider (str) "determine_type s = ''string''" "column_record str_of s = Some (analyze_string str_of s)"
    | (num) xs where "determine_type s = ''numeric''" "s = NumSeries xs"
        "column_record str_of s = Some (analyze_numeric s)"
    | (boolnum) xs where "determine_type s = ''boolean''" "s = NumSeries xs"
        "column_record str_of s = Some (analyze_boolean s)"
    | (boolbool) xs where "determine_type s = ''boolean''" "s = BoolSeries xs"
        "column_record str_of s = Some (analyze_boolean s)"
    | (dt) xs where "determine_type s = ''datetime''" "s = DatetimeSeries xs"
        "column_record str_of s = Some (analyze_datetime s)"
    using column_record_cases [of s str_of] by blast
  then show ?thesis
  proof cases
    case str
    obtain r where r: "analyze_string_with str_len str_of s = Inr r"
      using analyze_string_returns by blast
    with str analyze_string_keys [OF r] show ?thesis
      by (simp add: analyze_string_def)
  next
    case num
    with analyze_numeric_fields [of xs] show ?thesis by auto
  next
    case boolnum
    then show ?thesis
      by (simp add: analyze_boolean.simps boolean_record_def Let_def)
  next
    case boolbool
    then show ?thesis
      by (simp add: analyze_boolean.simps boolean_record_def Let_def)
  next
    case dt
    with datetime_record_timestamps [of xs] show ?thesis
      by (simp add: analyze_datetime.simps)
  qed
qed

lemma getitem_distinct:
  "distinct (map fst d) \<Longrightarrow> (c, s) \<in> set d \<Longrightarrow> getitem d c = Inr s"
  by (simp add: getitem_def)

lemma dict_set_new: "k \<notin> fst ` set d \<Longrightarrow> dict_set d k v = d @ [(k, v)]"
  by (induction d) auto

lemma analyze_columns_suffix:
  assumes "distinct (map fst d)"
  shows "set cs \<subseteq> set d \<Longrightarrow> distinct (map fst cs) \<Longrightarrow> fst ` set res \<inter> fst ` set cs = {} \<Longrightarrow>
    \<exists>rs. analyze_columns str_of d (map fst cs) res = Inr (res @ rs)
       \<and> list_all2 (\<lambda>p q. fst q = fst p \<and> column_record str_of (snd p) = Some (Inr (snd q))) cs rs"
proof (induction cs arbitrary: res)
  case Nil
  then show ?case by simp
next
  case (Cons p cs)
  obtain c s where p: "p = (c, s)" by (cases p)
  have get: "getitem d c = Inr s"
    using assms Cons.prems(1) p by (simp add: getitem_distinct)
  obtain r where r: "column_record str_of s = Some (Inr r)"
    using column_record_returns by blast
  have new: "c \<notin> fst ` set res"
    using Cons.prems(3) p by auto
  have step: "analyze_columns str_of d (map fst (p # cs)) res
      = analyze_columns str_of d (map fst cs) (res @ [(c, r)])"
    using get r new p by (simp add: dict_set_new)
  have disj: "fst ` set (res @ [(c, r)]) \<inter> fst ` set cs = {}"
    using Cons.prems(2,3) p by auto
  from Cons.IH [of "res @ [(c, r)]"] Cons.prems disj
  obtain rs where rs: "analyze_columns str_of d (map fst cs) (res @ [(c, r)]) = Inr ((res @ [(c, r)]) @ rs)"
    and all: "list_all2 (\<lambda>p q. fst q = fst p \<and> column_record str_of (snd p) = Some (Inr (snd q))) cs rs"
    by auto
  show ?case
  proof (intro exI [of _ "(c, r) # rs"] conjI)
    show "analyze_columns str_of d (map fst (p # cs)) res = Inr (res @ (c, r) # rs)"
      using step rs by simp
    show "list_all2 (\<lambda>p q. fst q = fst p \<and> column_record str_of (snd p) = Some (Inr (snd q)))
            (p # cs) ((c, r) # rs)"
      using all r p by simp
  qed
qed

lemma analyze_columns_all:
  assumes "distinct (map fst d)"
  shows "\<exists>rs. analyze_columns str_of d (columns d) [] = Inr rs
       \<and> list_all2 (\<lambda>p q. fst q = fst p \<and> column_record str_of (snd p) = Some (Inr (snd q))) d rs"
  using analyze_columns_suffix [OF assms, of d "[]" str_of] assms
  by (simp add: columns_def)

lemma list_all2_keys:
  "list_all2 (\<lambda>p q. fst q = fst p \<and> P (snd p) (snd q)) d rs \<Longrightarrow> map fst rs = map fst d"
  by (induction d rs rule: list_all2_induct) auto


lemma init_result:
  assumes "distinct (map fst d)"
  shows "\<exists>rs. init str_of d = Inr \<lparr>df = d, results = rs\<rparr>
       \<and> analyze_columns str_of d (columns d) [] = Inr rs
       \<and> list_all2 (\<lambda>p q. fst q = fst p \<and> column_record str_of (snd p) = Some (Inr (snd q))) d rs"
  using analyze_columns_all [OF assms, of str_of]
  by (auto simp: init_def analyze_def)



text \<open>
  Claim C10. For a dataset with no columns, construction succeeds and \<open>get_profile\<close>
  returns the empty mapping. In general \<open>get_profile\<close> returns the \<open>results\<close> field as
  the loop of \<open>_analyze\<close> left it at construction, and its keys are the column labels of
  the dataset, in the dataset's order, and nothing else.
\<close>

theorem get_profile_is_constructed_mapping:
  "init str_of [] = Inr \<lparr>df = [], results = []\<rparr>
   \<and> get_profile \<lparr>df = [], results = []\<rparr> = []
   \<and> (distinct (map fst d) \<longrightarrow>
        (\<exists>self. init str_of d = Inr self
           \<and> df self = d
           \<and> get_profile self = results self
           \<and> analyze_columns str_of d (columns d) [] = Inr (get_profile self)
           \<and> map fst (get_profile self) = columns d))"
proof (intro conjI impI)
  show "init str_of [] = Inr \<lparr>df = [], results = []\<rparr>"
    by (simp add: init_def analyze_def columns_def)
  show "get_profile \<lparr>df = [], results = []\<rparr> = []"
    by (simp add: get_profile_def)
next
  assume dist: "distinct (map fst d)"
  obtain rs where i: "init str_of d = Inr \<lparr>df = d, results = rs\<rparr>"
    and run: "analyze_columns str_of d (columns d) [] = Inr rs"
    and all: "list_all2 (\<lambda>p q. fst q = fst p \<and> column_record str_of (snd p) = Some (Inr (snd q))) d rs"
    using init_result [OF dist] by blast
  have keys: "map fst rs = map fst d"
    using all by (rule list_all2_keys [where P = "\<lambda>s r. column_record str_of s = Some (Inr r)"])
  show "\<exists>self. init str_of d = Inr self
           \<and> df self = d
           \<and> get_profile self = results self
           \<and> analyze_columns str_of d (columns d) [] = Inr (get_profile self)
           \<and> map fst (get_profile self) = columns d"
    using i run keys
    by (intro exI [of _ "\<lparr>df = d, results = rs\<rparr>"]) (simp add: get_profile_def columns_def)
qed

theorem get_profile_is_constructed_mapping_witness:
  "distinct (map fst [(''b'', BoolSeries [Some True]), (''a'', DatetimeSeries [Some 7, None])])
   \<and> (\<exists>self. init (\<lambda>v. ''x'') [(''b'', BoolSeries [Some True]), (''a'', DatetimeSeries [Some 7, None])] = Inr self
         \<and> map fst (get_profile self) = [''b'', ''a''])"
proof -
  let ?d = "[(''b'', BoolSeries [Some True]), (''a'', DatetimeSeries [Some 7, None])]"
  have dist: "distinct (map fst ?d)" by simp
  from get_profile_is_constructed_mapping [of "\<lambda>v. ''x''" ?d, THEN conjunct2, THEN conjunct2, THEN mp, OF dist]
  obtain self where i: "init (\<lambda>v. ''x'') ?d = Inr self"
    and k: "map fst (get_profile self) = columns ?d"
    by (elim exE conjE)
  have "map fst (get_profile self) = [''b'', ''a'']"
    using k by (simp add: columns_def)
  with dist i show ?thesis by (intro conjI exI [of _ self])
qed

section \<open>Order of the Numeric statistics\<close>





















section \<open>The most frequent values of a String column\<close>

lemma first_index_Cons:
  "first_index (x # xs) v = (if x = v then 0 else Suc (first_index xs v))"
  by (simp add: first_index_def)

lemma first_index_less: "v \<in> set xs \<Longrightarrow> first_index xs v < length xs"
  by (induction xs) (auto simp: first_index_Cons)

lemma first_index_append_in: "v \<in> set pre \<Longrightarrow> first_index (pre @ ys) v = first_index pre v"
  by (simp add: first_index_def)

lemma first_index_append_new: "v \<notin> set pre \<Longrightarrow> first_index (pre @ v # ys) v = length pre"
  by (induction pre) (auto simp: first_index_Cons)

lemma nth_first_index: "v \<in> set xs \<Longrightarrow> xs ! first_index xs v = v"
  by (induction xs) (auto simp: first_index_Cons)

lemma first_index_map_inj:
  assumes "inj g"
  shows "first_index (map g xs) (g v) = first_index xs v"
  using assms by (induction xs) (auto simp: first_index_def dest: injD)

lemma unique_acc_order:
  "set seen = set pre \<Longrightarrow>
   sorted_wrt (\<lambda>v w. first_index (pre @ xs) v < first_index (pre @ xs) w) (rev seen) \<Longrightarrow>
   sorted_wrt (\<lambda>v w. first_index (pre @ xs) v < first_index (pre @ xs) w) (unique_acc seen xs)"
proof (induction xs arbitrary: seen pre)
  case Nil
  then show ?case by simp
next
  case (Cons x xs)
  let ?T = "pre @ x # xs"
  have T: "?T = (pre @ [x]) @ xs" by simp
  show ?case
  proof (cases "x \<in> set seen")
    case True
    then have "set seen = set (pre @ [x])" using Cons.prems(1) by auto
    from Cons.IH [OF this] Cons.prems(2) True show ?thesis
      unfolding T by simp
  next
    case False
    then have new: "x \<notin> set pre" using Cons.prems(1) by simp
    have s: "set (x # seen) = set (pre @ [x])" using Cons.prems(1) by auto
    have last: "first_index ?T v < first_index ?T x" if "v \<in> set seen" for v
    proof -
      have v: "v \<in> set pre" using that Cons.prems(1) by simp
      have "first_index ?T v = first_index pre v" using v by (rule first_index_append_in)
      also have "\<dots> < length pre" using v by (rule first_index_less)
      also have "length pre = first_index ?T x" using new by (simp add: first_index_append_new)
      finally show ?thesis .
    qed
    have "sorted_wrt (\<lambda>v w. first_index ?T v < first_index ?T w) (rev (x # seen))"
      using Cons.prems(2) last by (simp add: sorted_wrt_append)
    from Cons.IH [OF s] this False show ?thesis
      unfolding T by simp
  qed
qed

lemma unique_order: "sorted_wrt (\<lambda>v w. first_index xs v < first_index xs w) (unique xs)"
  using unique_acc_order [of "[]" "[]" xs] by (simp add: unique_def)

lemma sorted_wrt_insort_key:
  fixes f :: "'a \<Rightarrow> 'k::linorder"
  assumes "sorted_wrt R ys" and "sorted (map f ys)"
    and "\<And>y. y \<in> set ys \<Longrightarrow> f y < f a \<Longrightarrow> R y a"
    and "\<And>y. y \<in> set ys \<Longrightarrow> f a \<le> f y \<Longrightarrow> R a y"
  shows "sorted_wrt R (insort_key f a ys)"
  using assms
proof (induction ys)
  case Nil
  then show ?case by simp
next
  case (Cons y ys)
  show ?case
  proof (cases "f a \<le> f y")
    case True
    have "R a z" if "z \<in> set (y # ys)" for z
    proof -
      have "f y \<le> f z" using that Cons.prems(2) by auto
      with True have "f a \<le> f z" by simp
      with that show ?thesis by (rule Cons.prems(4))
    qed
    with True Cons.prems(1) show ?thesis by simp
  next
    case False
    then have lt: "f y < f a" by simp
    have tail: "sorted_wrt R (insort_key f a ys)"
      using Cons.prems by (intro Cons.IH) auto
    have "R y z" if "z \<in> set (insort_key f a ys)" for z
    proof -
      from that have "z = a \<or> z \<in> set ys" by (simp add: set_insort_key)
      then show ?thesis
        using lt Cons.prems(1,3) by auto
    qed
    with False tail show ?thesis by simp
  qed
qed

lemma sort_key_stable_order:
  fixes f :: "'a \<Rightarrow> 'k::linorder"
  assumes "distinct l"
  shows "sorted_wrt (\<lambda>p q. f p < f q \<or> (f p = f q \<and> first_index l p < first_index l q))
           (sort_key f l)"
  using assms
proof (induction l)
  case Nil
  then show ?case by simp
next
  case (Cons a l)
  let ?R = "\<lambda>l p q. f p < f q \<or> (f p = f q \<and> first_index l p < first_index l q)"
  have a: "a \<notin> set l" and d: "distinct l" using Cons.prems by simp_all
  have "sorted_wrt (?R l) (sort_key f l)" using d by (rule Cons.IH)
  then have rest: "sorted_wrt (?R (a # l)) (sort_key f l)"
  proof (rule sorted_wrt_mono_rel [rotated])
    fix p q assume "p \<in> set (sort_key f l)" "q \<in> set (sort_key f l)" "?R l p q"
    then show "?R (a # l) p q" using a by (auto simp: first_index_Cons)
  qed
  have "sorted_wrt (?R (a # l)) (insort_key f a (sort_key f l))"
  proof (rule sorted_wrt_insort_key [OF rest])
    show "sorted (map f (sort_key f l))" by simp
    show "?R (a # l) y a" if "y \<in> set (sort_key f l)" "f y < f a" for y
      using that by simp
    show "?R (a # l) a y" if "y \<in> set (sort_key f l)" "f a \<le> f y" for y
    proof -
      have "y \<noteq> a" using that(1) a by auto
      then have "first_index (a # l) a < first_index (a # l) y"
        by (simp add: first_index_Cons)
      with that(2) show ?thesis by auto
    qed
  qed
  then show ?case by simp
qed

lemma value_counts_set:
  "set (value_counts xs) = (\<lambda>v. (v, int (count_list xs v))) ` set xs"
  by (simp add: value_counts_def)

lemma value_counts_keys: "distinct (map fst (value_counts xs)) \<and> set (map fst (value_counts xs)) = set xs"
proof -
  let ?g = "\<lambda>v. (v, int (count_list xs v))"
  have inj: "inj ?g" by (rule injI) simp
  have d: "distinct (value_counts xs)"
    using inj by (simp add: value_counts_def distinct_map inj_on_def)
  have "inj_on fst (set (value_counts xs))"
    unfolding value_counts_set by (rule inj_onI) auto
  with d have "distinct (map fst (value_counts xs))"
    by (simp add: distinct_map)
  moreover have "set (map fst (value_counts xs)) = set xs"
    by (simp add: value_counts_set image_image)
  ultimately show ?thesis by blast
qed

lemma value_counts_order: "sorted_wrt (ranks_before xs) (value_counts xs)"
proof -
  let ?g = "\<lambda>v. (v, int (count_list xs v))"
  let ?key = "\<lambda>(v :: 'a, c :: int). - c"
  let ?ps = "map ?g (unique xs)"
  have inj: "inj ?g" by (rule injI) simp
  have d: "distinct ?ps"
    using inj by (simp add: distinct_map inj_on_def)
  have st: "sorted_wrt (\<lambda>p q. ?key p < ?key q \<or> (?key p = ?key q \<and> first_index ?ps p < first_index ?ps q))
        (sort_key ?key ?ps)"
    using d by (rule sort_key_stable_order)
  have "sorted_wrt (ranks_before xs) (sort_key ?key ?ps)"
  proof (rule sorted_wrt_mono_rel [OF _ st])
    fix p q
    assume p: "p \<in> set (sort_key ?key ?ps)" and q: "q \<in> set (sort_key ?key ?ps)"
      and r: "?key p < ?key q \<or> (?key p = ?key q \<and> first_index ?ps p < first_index ?ps q)"
    from p obtain v where v: "v \<in> set xs" "p = ?g v" by auto
    from q obtain w where w: "w \<in> set xs" "q = ?g w" by auto
    have fp: "first_index ?ps p = first_index (unique xs) v"
      unfolding v(2) using inj by (rule first_index_map_inj)
    have fq: "first_index ?ps q = first_index (unique xs) w"
      unfolding w(2) using inj by (rule first_index_map_inj)
    have pos: "first_index xs v < first_index xs w"
      if lt: "first_index (unique xs) v < first_index (unique xs) w"
    proof -
      have "first_index (unique xs) w < length (unique xs)"
        using w(1) by (simp add: first_index_less)
      from sorted_wrt_nth_less [OF unique_order lt this]
      show ?thesis using v(1) w(1) by (simp add: nth_first_index)
    qed
    show "ranks_before xs p q"
      using r pos unfolding ranks_before_def fp fq by (auto simp: v(2) w(2))
  qed
  then show ?thesis by (simp add: value_counts_def)
qed

lemma count_list_le_length: "count_list xs v \<le> length xs"
  by (induction xs) auto

lemma count_list_pos: "v \<in> set xs \<Longrightarrow> 0 < count_list xs v"
  by (induction xs) auto

lemma top_values_properties:
  fixes xs :: "'a list"
  defines "tf \<equiv> take 5 (value_counts xs)"
  shows "length tf \<le> 5"
    and "length tf = min 5 (card (set xs))"
    and "distinct (map fst tf)"
    and "\<And>v c. (v, c) \<in> set tf \<Longrightarrow> v \<in> set xs \<and> c = int (count_list xs v) \<and> 1 \<le> c \<and> c \<le> int (length xs)"
    and "sorted_wrt (ranks_before xs) tf"
    and "\<And>p w. p \<in> set tf \<Longrightarrow> w \<in> set xs \<Longrightarrow> w \<notin> fst ` set tf \<Longrightarrow>
            ranks_before xs p (w, int (count_list xs w))"
proof -
  let ?vc = "value_counts xs"
  have keys: "distinct (map fst ?vc)" "set (map fst ?vc) = set xs"
    using value_counts_keys [of xs] by blast+
  have ord: "sorted_wrt (ranks_before xs) ?vc" by (rule value_counts_order)
  have split: "?vc = tf @ drop 5 ?vc" by (simp add: tf_def)
  show "length tf \<le> 5" by (simp add: tf_def)
  have "length ?vc = card (set xs)"
    using keys distinct_card [of "map fst ?vc"] by simp
  then show "length tf = min 5 (card (set xs))" by (simp add: tf_def min.commute)
  show "distinct (map fst tf)"
    using keys(1) by (simp add: tf_def take_map [symmetric])
  show "v \<in> set xs \<and> c = int (count_list xs v) \<and> 1 \<le> c \<and> c \<le> int (length xs)"
    if "(v, c) \<in> set tf" for v c
  proof -
    from that have "(v, c) \<in> set ?vc" unfolding tf_def by (rule in_set_takeD)
    then have vc: "v \<in> set xs" "c = int (count_list xs v)"
      by (auto simp: value_counts_set)
    with count_list_pos [OF vc(1)] count_list_le_length [of xs v] show ?thesis by simp
  qed
  show "sorted_wrt (ranks_before xs) tf"
    using ord unfolding tf_def by (rule sorted_wrt_take)
  show "ranks_before xs p (w, int (count_list xs w))"
    if p: "p \<in> set tf" and w: "w \<in> set xs" and out: "w \<notin> fst ` set tf" for p w
  proof -
    have "(w, int (count_list xs w)) \<in> set ?vc"
      using w by (simp add: value_counts_set)
    then have "(w, int (count_list xs w)) \<in> set tf \<union> set (drop 5 ?vc)"
      using split by (metis set_append)
    with out have "(w, int (count_list xs w)) \<in> set (drop 5 ?vc)" by force
    moreover have "\<forall>x\<in>set tf. \<forall>y\<in>set (drop 5 ?vc). ranks_before xs x y"
      using ord split by (metis sorted_wrt_append)
    ultimately show ?thesis using p by blast
  qed
qed

lemma analyze_string_top:
  "analyze_string_with lens str_of s = Inr r \<Longrightarrow>
   map_of r ''top_frequencies'' =
     Some (PDict (if map (astype_str str_of) (dropna (cells s)) \<noteq> []
                  then take 5 (value_counts (map (astype_str str_of) (dropna (cells s)))) else []))"
  by (auto simp: analyze_string_with_def Let_def split: prod.splits)

lemma ranks_before_desc: "ranks_before xs p q \<Longrightarrow> snd q \<le> snd p"
  by (auto simp: ranks_before_def)

text \<open>
  Claim C4. For every String-kind column, \<open>top_frequencies\<close> is a dictionary with at
  most 5 entries (5, or the number of distinct values when there are fewer). Its keys are
  distinct stringified non-null values, each with its number of occurrences, which is at
  most the number of non-null values. The entries are in descending order of count, a tie
  going to the value encountered first; every value left out ranks after every entry in
  that order, so the entries are the most frequent values. The dictionary is empty when
  there is no non-null value. The order among ties is that of \<open>value_counts\<close>, taken here
  as counting in order of first appearance followed by a stable sort.
\<close>

theorem top_frequencies_ranked:
  assumes "determine_type s = ''string''"
  shows "\<exists>r tf. column_record str_of s = Some (Inr r)
     \<and> map_of r ''top_frequencies'' = Some (PDict tf)
     \<and> length tf \<le> 5
     \<and> length tf = min 5 (card (set (map (astype_str str_of) (dropna (cells s)))))
     \<and> distinct (map fst tf)
     \<and> (\<forall>(v, c) \<in> set tf. v \<in> set (map (astype_str str_of) (dropna (cells s)))
            \<and> c = int (count_list (map (astype_str str_of) (dropna (cells s))) v)
            \<and> 1 \<le> c \<and> c \<le> int (length (dropna (cells s))))
     \<and> sorted_wrt (\<lambda>p q. snd q \<le> snd p) tf
     \<and> sorted_wrt (ranks_before (map (astype_str str_of) (dropna (cells s)))) tf
     \<and> (\<forall>p \<in> set tf. \<forall>w \<in> set (map (astype_str str_of) (dropna (cells s))). w \<notin> fst ` set tf \<longrightarrow>
            ranks_before (map (astype_str str_of) (dropna (cells s))) p
              (w, int (count_list (map (astype_str str_of) (dropna (cells s))) w)))
     \<and> (dropna (cells s) = [] \<longrightarrow> tf = [])"
proof -
  let ?xs = "map (astype_str str_of) (dropna (cells s))"
  let ?tf = "take 5 (value_counts ?xs)"
  obtain r where r: "analyze_string_with str_len str_of s = Inr r"
    using analyze_string_returns by blast
  have rec: "column_record str_of s = Some (Inr r)"
    using column_record_string [OF assms] r by (simp add: analyze_string_def)
  have "value_counts ([] :: string list) = []"
    by (simp add: value_counts_def unique_def)
  then have top: "map_of r ''top_frequencies'' = Some (PDict ?tf)"
    using analyze_string_top [OF r] by (cases "?xs = []") simp_all
  note P = top_values_properties [where xs = ?xs]
  show ?thesis
  proof (rule exI [of _ r], rule exI [of _ ?tf], intro conjI)
    show "column_record str_of s = Some (Inr r)" by (rule rec)
    show "map_of r ''top_frequencies'' = Some (PDict ?tf)" by (rule top)
    show "length ?tf \<le> 5" by (rule P(1))
    show "length ?tf = min 5 (card (set ?xs))" by (rule P(2))
    show "distinct (map fst ?tf)" by (rule P(3))
    show "\<forall>(v, c) \<in> set ?tf. v \<in> set ?xs \<and> c = int (count_list ?xs v)
            \<and> 1 \<le> c \<and> c \<le> int (length (dropna (cells s)))"
      using P(4) by fastforce
    show "sorted_wrt (ranks_before ?xs) ?tf" by (rule P(5))
    then show "sorted_wrt (\<lambda>p q. snd q \<le> snd p) ?tf"
      by (rule sorted_wrt_mono_rel [rotated]) (rule ranks_before_desc)
    show "\<forall>p \<in> set ?tf. \<forall>w \<in> set ?xs. w \<notin> fst ` set ?tf \<longrightarrow>
            ranks_before ?xs p (w, int (count_list ?xs w))"
      using P(6) by blast
    show "dropna (cells s) = [] \<longrightarrow> ?tf = []"
      by (simp add: value_counts_def unique_def)
  qed
qed

theorem top_frequencies_ranked_witness:
  "determine_type (ObjectSeries [Some (Str ''b''), Some (Str ''a''), None, Some (Str ''a''),
      Some (Str ''c''), Some (Str ''b''), Some (Str ''d''), Some (Str ''e''), Some (Str ''f'')]) = ''string''
   \<and> (\<exists>r tf. column_record (\<lambda>v. ''x'') (ObjectSeries [Some (Str ''b''), Some (Str ''a''), None,
          Some (Str ''a''), Some (Str ''c''), Some (Str ''b''), Some (Str ''d''), Some (Str ''e''),
          Some (Str ''f'')]) = Some (Inr r)
        \<and> map_of r ''top_frequencies'' = Some (PDict tf)
        \<and> tf = [(''b'', 2), (''a'', 2), (''c'', 1), (''d'', 1), (''e'', 1)]
        \<and> length tf \<le> 5
        \<and> sorted_wrt (\<lambda>p q. snd q \<le> snd p) tf)"
proof -
  let ?s = "ObjectSeries [Some (Str ''b''), Some (Str ''a''), None, Some (Str ''a''),
      Some (Str ''c''), Some (Str ''b''), Some (Str ''d''), Some (Str ''e''), Some (Str ''f'')]"
  let ?f = "\<lambda>v :: scalar. ''x''"
  have k: "determine_type ?s = ''string''"
    by (simp add: determine_type_def series_empty_def len_def mask_all_isna)
  have xs: "map (astype_str ?f) (dropna (cells ?s)) = [''b'', ''a'', ''a'', ''c'', ''b'', ''d'', ''e'', ''f'']"
    by (simp add: astype_str_def)
  have ev: "take 5 (value_counts [''b'', ''a'', ''a'', ''c'', ''b'', ''d'', ''e'', ''f''])
     = [(''b'', 2), (''a'', 2), (''c'', 1), (''d'', 1), (''e'', 1)]"
    by (simp add: value_counts_def unique_def)
  from top_frequencies_ranked [OF k, of ?f]
  obtain r tf where rec: "column_record ?f ?s = Some (Inr r)"
    and top: "map_of r ''top_frequencies'' = Some (PDict tf)"
    and len: "length tf \<le> 5"
    and srt: "sorted_wrt (\<lambda>p q. snd q \<le> snd p) tf"
    by (elim exE conjE)
  have "analyze_string_with str_len ?f ?s = Inr r"
    using rec column_record_string [OF k, of ?f] by (simp add: analyze_string_def)
  from analyze_string_top [OF this] top
  have "tf = [(''b'', 2), (''a'', 2), (''c'', 1), (''d'', 1), (''e'', 1)]"
    unfolding xs ev by simp
  with k rec top len srt show ?thesis by (intro conjI exI [of _ r] exI [of _ tf])
qed

end
